theory Spec2Isabelle
  imports Main "HOL-Library.Sublist"
begin

section \<open>XLA compiler options of axlearn (\<^verbatim>\<open>axlearn/common/compiler_options.py\<close>)\<close>

text \<open>
  Python strings are modelled as \<^typ>\<open>string\<close>, that is as lists of characters with code
  points below 256. On that range the class \<^verbatim>\<open>\d\<close> of Python's \<^verbatim>\<open>re\<close> is exactly the
  ten ASCII digits, and \<^verbatim>\<open>.\<close> is every character but the line feed.
\<close>

subsection \<open>Exceptions\<close>

text \<open>
  Each exception carries the argument it is raised with. \<^verbatim>\<open>NotTpuError\<close> is the module's
  own subclass of \<^verbatim>\<open>ValueError\<close>; \<^verbatim>\<open>IndexError\<close> is what indexing a list out of range
  raises.
\<close>

datatype error =
    NotImplementedError string
  | NotTpuError string
  | ValueError string
  | IndexError

subsection \<open>Regular expressions and \<^verbatim>\<open>re.fullmatch\<close>\<close>

datatype regex =
    Never
  | Empty
  | Lit char
  | Dot
  | Digit
  | Cat regex regex
  | Or regex regex
  | Rep regex

definition newline :: char where
  "newline = CHR 0x0A"

definition is_digit :: "char \<Rightarrow> bool" where
  "is_digit c = (c \<in> set ''0123456789'')"

definition Opt :: "regex \<Rightarrow> regex" where
  \<comment> \<open>\<^verbatim>\<open>r?\<close>\<close>
  "Opt r = Or r Empty"

definition Plus :: "regex \<Rightarrow> regex" where
  \<comment> \<open>\<^verbatim>\<open>r+\<close>\<close>
  "Plus r = Cat r (Rep r)"

fun Lits :: "string \<Rightarrow> regex" where
  \<comment> \<open>a run of literal characters\<close>
  "Lits [] = Empty"
| "Lits (c # cs) = Cat (Lit c) (Lits cs)"

fun nullable :: "regex \<Rightarrow> bool" where
  "nullable Never = False"
| "nullable Empty = True"
| "nullable (Lit c) = False"
| "nullable Dot = False"
| "nullable Digit = False"
| "nullable (Cat r s) = (nullable r \<and> nullable s)"
| "nullable (Or r s) = (nullable r \<or> nullable s)"
| "nullable (Rep r) = True"

fun deriv :: "char \<Rightarrow> regex \<Rightarrow> regex" where
  "deriv c Never = Never"
| "deriv c Empty = Never"
| "deriv c (Lit d) = (if c = d then Empty else Never)"
| "deriv c Dot = (if c \<noteq> newline then Empty else Never)"
| "deriv c Digit = (if is_digit c then Empty else Never)"
| "deriv c (Cat r s) =
     (if nullable r then Or (Cat (deriv c r) s) (deriv c s) else Cat (deriv c r) s)"
| "deriv c (Or r s) = Or (deriv c r) (deriv c s)"
| "deriv c (Rep r) = Cat (deriv c r) (Rep r)"

fun fullmatch :: "regex \<Rightarrow> string \<Rightarrow> bool" where
  \<comment> \<open>\<^verbatim>\<open>re.fullmatch(r, s) is not None\<close>: the whole of \<open>s\<close> is a word of \<open>r\<close>\<close>
  "fullmatch r [] = nullable r"
| "fullmatch r (c # cs) = fullmatch (deriv c r) cs"

text \<open>The words of a regular expression, to say what \<^const>\<open>fullmatch\<close> decides.\<close>

inductive_set star :: "string set \<Rightarrow> string set" for A :: "string set" where
  star_nil: "[] \<in> star A"
| star_app: "u \<in> A \<Longrightarrow> v \<in> star A \<Longrightarrow> u @ v \<in> star A"

fun lang :: "regex \<Rightarrow> string set" where
  "lang Never = {}"
| "lang Empty = {[]}"
| "lang (Lit c) = {[c]}"
| "lang Dot = {[c] | c. c \<noteq> newline}"
| "lang Digit = {[c] | c. is_digit c}"
| "lang (Cat r s) = {u @ v | u v. u \<in> lang r \<and> v \<in> lang s}"
| "lang (Or r s) = lang r \<union> lang s"
| "lang (Rep r) = star (lang r)"

subsection \<open>\<^verbatim>\<open>str.replace\<close>\<close>

text \<open>
  \<^verbatim>\<open>s.replace(old, new)\<close> replaces every occurrence of \<open>old\<close>, found from left to right
  and not overlapping. For an empty \<open>old\<close> Python puts \<open>new\<close> before every character and
  at the end.
\<close>

function str_replace_from :: "string \<Rightarrow> string \<Rightarrow> string \<Rightarrow> string" where
  "str_replace_from old new [] = []"
| "str_replace_from old new (c # cs) =
     (if old \<noteq> [] \<and> prefix old (c # cs)
      then new @ str_replace_from old new (drop (length old) (c # cs))
      else c # str_replace_from old new cs)"
  by pat_completeness auto
termination
  by (relation "measure (\<lambda>(old, new, s). length s)") (auto simp: neq_Nil_conv)

definition str_replace :: "string \<Rightarrow> string \<Rightarrow> string \<Rightarrow> string" where
  "str_replace s old new =
     (if old = [] then new @ concat (map (\<lambda>c. c # new) s)
      else str_replace_from old new s)"

subsection \<open>\<^verbatim>\<open>infer_tpu_type\<close>\<close>

definition tpu_pattern :: regex where
  \<comment> \<open>\<^verbatim>\<open>r"(tpu-)?v.+-\d+"\<close>\<close>
  "tpu_pattern =
     Cat (Opt (Lits ''tpu-''))
       (Cat (Lit CHR ''v'') (Cat (Plus Dot) (Cat (Lit CHR ''-'') (Plus Digit))))"

definition infer_tpu_type :: "string \<Rightarrow> error + string" where
  "infer_tpu_type instance_type =
     (if \<not> (instance_type \<noteq> [] \<and> fullmatch tpu_pattern instance_type)
      then Inl (NotTpuError (''Invalid TPU instance: '' @ instance_type))
      else Inr (str_replace instance_type ''tpu-'' ''''))"

subsection \<open>\<^verbatim>\<open>infer_tpu_version\<close>\<close>

definition TPU_VERSIONS :: "string list" where
  \<comment> \<open>\<^verbatim>\<open>_TPU_VERSIONS\<close>\<close>
  "TPU_VERSIONS = [''v3'', ''v4'', ''v5litepod'', ''v5p'', ''v6e'']"

definition rsplit1 :: "string \<Rightarrow> char \<Rightarrow> string list" where
  \<comment> \<open>\<^verbatim>\<open>s.rsplit(sep, 1)\<close> for a separator of one character: one split, at the last
      occurrence of the separator, and no split when there is none\<close>
  "rsplit1 s sep =
     (if sep \<in> set s
      then [rev (tl (dropWhile (\<lambda>x. x \<noteq> sep) (rev s))),
            rev (takeWhile (\<lambda>x. x \<noteq> sep) (rev s))]
      else [s])"

definition index0 :: "'a list \<Rightarrow> error + 'a" where
  \<comment> \<open>\<^verbatim>\<open>xs[0]\<close>\<close>
  "index0 xs = (case xs of [] \<Rightarrow> Inl IndexError | x # _ \<Rightarrow> Inr x)"

fun str_join :: "string \<Rightarrow> string list \<Rightarrow> string" where
  \<comment> \<open>\<^verbatim>\<open>sep.join(xs)\<close>\<close>
  "str_join sep [] = []"
| "str_join sep [x] = x"
| "str_join sep (x # y # ys) = x @ sep @ str_join sep (y # ys)"

definition repr_str :: "string \<Rightarrow> string" where
  \<comment> \<open>\<^verbatim>\<open>repr\<close> of a string of printable ASCII characters with no quote and no backslash,
      as the members of \<^verbatim>\<open>_TPU_VERSIONS\<close> are\<close>
  "repr_str s = [CHR 0x27] @ s @ [CHR 0x27]"

definition repr_tuple :: "string list \<Rightarrow> string" where
  \<comment> \<open>\<^verbatim>\<open>str\<close> of a tuple of such strings\<close>
  "repr_tuple xs =
     ''('' @ str_join '', '' (map repr_str xs) @ (if length xs = 1 then '','' else []) @ '')''"

definition infer_tpu_version :: "string \<Rightarrow> error + string" where
  "infer_tpu_version tpu_type =
     (case infer_tpu_type tpu_type of
        Inl e \<Rightarrow> Inl e
      | Inr tpu_type' \<Rightarrow>
          (case index0 (rsplit1 tpu_type' CHR ''-'') of
             Inl e \<Rightarrow> Inl e
           | Inr tpu_version \<Rightarrow>
               if tpu_version \<notin> set TPU_VERSIONS
               then Inl (ValueError (''Unknown TPU version '' @ tpu_version
                      @ ''. Expected one of '' @ repr_tuple TPU_VERSIONS))
               else Inr tpu_version))"

subsection \<open>Option values and dictionaries\<close>

text \<open>
  An option value is a Python \<^verbatim>\<open>bool\<close>, \<^verbatim>\<open>str\<close> or \<^verbatim>\<open>int\<close>. A \<^verbatim>\<open>dict\<close> keeps its keys
  in insertion order, so it is a list of pairs with distinct keys: storing under a key
  that is present replaces the value where it stands, storing under a new key appends.
\<close>

datatype pyval = PBool bool | PStr string | PInt int

type_synonym options = "(string \<times> pyval) list"

fun dict_set :: "options \<Rightarrow> string \<Rightarrow> pyval \<Rightarrow> options" where
  \<comment> \<open>\<^verbatim>\<open>d[k] = v\<close>\<close>
  "dict_set [] k v = [(k, v)]"
| "dict_set ((k', v') # d) k v =
     (if k' = k then (k', v) # d else (k', v') # dict_set d k v)"

fun dict_update :: "options \<Rightarrow> (string \<times> pyval) list \<Rightarrow> options" where
  \<comment> \<open>\<^verbatim>\<open>d.update(k1=v1, k2=v2, ...)\<close>, the keyword arguments in the order written\<close>
  "dict_update d [] = d"
| "dict_update d ((k, v) # kwargs) = dict_update (dict_set d k v) kwargs"

definition dict :: "(string \<times> pyval) list \<Rightarrow> options" where
  \<comment> \<open>\<^verbatim>\<open>dict(k1=v1, k2=v2, ...)\<close>\<close>
  "dict kwargs = dict_update [] kwargs"

subsection \<open>\<^verbatim>\<open>default_xla_options\<close>\<close>

definition base_options :: "(string \<times> pyval) list" where
  "base_options =
     [(''xla_tpu_spmd_rng_bit_generator_unsafe'', PBool True),
      (''xla_tpu_enable_latency_hiding_scheduler'', PStr ''true''),
      (''xla_tpu_perform_spmd_cse_prevention'', PStr ''false'')]"

definition v4_options :: "(string \<times> pyval) list" where
  "v4_options =
     [(''xla_enable_async_all_gather'', PStr ''true''),
      (''xla_enable_async_collective_permute'', PStr ''true'')]"

definition v6e_options :: "(string \<times> pyval) list" where
  "v6e_options =
     [(''xla_tpu_scoped_vmem_limit_kib'', PStr ''98304''),
      (''xla_tpu_enable_async_collective_fusion'', PStr ''true''),
      (''xla_tpu_enable_async_collective_fusion_fuse_all_gather'', PStr ''true''),
      (''xla_tpu_enable_async_collective_fusion_multiple_steps'', PStr ''true''),
      (''xla_tpu_overlap_compute_collective_tc'', PStr ''true''),
      (''xla_enable_async_all_gather'', PStr ''true''),
      (''xla_tpu_enable_all_experimental_scheduler_features'', PStr ''true''),
      (''xla_tpu_enable_scheduler_memory_pressure_tracking'', PStr ''ENABLED''),
      (''xla_tpu_host_transfer_overlap_limit'', PInt 24),
      (''xla_tpu_aggressive_opt_barrier_removal'', PStr ''ENABLED''),
      (''xla_lhs_prioritize_async_depth_over_stall'', PStr ''ENABLED''),
      (''xla_tpu_enable_ag_backward_pipelining'', PStr ''true''),
      (''xla_should_allow_loop_variant_parameter_in_chain'', PStr ''ENABLED''),
      (''xla_should_add_loop_invariant_op_in_chain'', PStr ''ENABLED''),
      (''xla_max_concurrent_host_send_recv'', PInt 100),
      (''xla_latency_hiding_scheduler_rerun'', PInt 0)]"

definition multi_slice_options :: "(string \<times> pyval) list" where
  "multi_slice_options =
     [(''xla_tpu_enable_megascale_barrier'', PStr ''true''),
      (''xla_tpu_enable_data_parallel_all_reduce_opt'', PStr ''true''),
      (''xla_tpu_data_parallel_opt_different_sized_ops'', PStr ''true'')]"

definition default_xla_options :: "string \<Rightarrow> int \<Rightarrow> string \<Rightarrow> error + options" where
  "default_xla_options instance_type num_slices backend =
     (if backend \<noteq> ''tpu'' then Inl (NotImplementedError backend)
      else case infer_tpu_type instance_type of
        Inl e \<Rightarrow> Inl e
      | Inr tpu_type \<Rightarrow>
          (case infer_tpu_version tpu_type of
             Inl e \<Rightarrow> Inl e
           | Inr version \<Rightarrow>
               (let options = dict base_options;
                    options = (if version = ''v4''
                               then dict_update options v4_options else options);
                    options = (if version = ''v6e''
                               then dict_update options v6e_options else options);
                    options = (if num_slices > 1
                               then dict_update options multi_slice_options else options)
                in Inr options)))"

subsection \<open>\<^verbatim>\<open>xla_flags_from_options\<close>\<close>

definition digit_char :: "nat \<Rightarrow> char" where
  "digit_char d = ''0123456789'' ! (d mod 10)"

fun str_nat :: "nat \<Rightarrow> string" where
  "str_nat n = (if n < 10 then [digit_char n] else str_nat (n div 10) @ [digit_char (n mod 10)])"

declare str_nat.simps [simp del]

definition str_int :: "int \<Rightarrow> string" where
  \<comment> \<open>\<^verbatim>\<open>str(i)\<close> of an \<^verbatim>\<open>int\<close>\<close>
  "str_int i = (if i < 0 then ''-'' @ str_nat (nat (- i)) else str_nat (nat i))"

fun format_value :: "pyval \<Rightarrow> string" where
  \<comment> \<open>what \<^verbatim>\<open>f"{v}"\<close> interpolates\<close>
  "format_value (PBool b) = (if b then ''True'' else ''False'')"
| "format_value (PStr s) = s"
| "format_value (PInt i) = str_int i"

definition flag_token :: "string \<Rightarrow> pyval \<Rightarrow> string" where
  \<comment> \<open>the body of the loop: the rebinding of \<open>v\<close> and the f-string appended\<close>
  "flag_token k v =
     (let v = (case v of PBool b \<Rightarrow> PStr (if b then ''1'' else ''0'') | _ \<Rightarrow> v)
      in ''--'' @ k @ ''='' @ format_value v)"

fun flags_loop :: "options \<Rightarrow> string list \<Rightarrow> string list" where
  \<comment> \<open>\<^verbatim>\<open>for k, v in xla_options.items(): ... flags.append(...)\<close>\<close>
  "flags_loop [] flags = flags"
| "flags_loop ((k, v) # items) flags = flags_loop items (flags @ [flag_token k v])"

definition xla_flags_from_options :: "options \<Rightarrow> string" where
  "xla_flags_from_options xla_options = str_join '' '' (flags_loop xla_options [])"

subsection \<open>The specification's wording, for comparison\<close>

definition strip_tpu_prefix :: "string \<Rightarrow> string" where
  \<comment> \<open>"strips a leading \<^verbatim>\<open>tpu-\<close> prefix (if present) and returns the remainder unchanged"\<close>
  "strip_tpu_prefix s = (if prefix ''tpu-'' s then drop 4 s else s)"

definition described_pattern :: regex where
  \<comment> \<open>the shape \<^verbatim>\<open>(tpu-)?<anything>-<digits>\<close> of the description, \<^verbatim>\<open><anything>\<close> being
      one or more characters\<close>
  "described_pattern =
     Cat (Opt (Lits ''tpu-'')) (Cat (Plus Dot) (Cat (Lit CHR ''-'') (Plus Digit)))"

fun rendered_value :: "pyval \<Rightarrow> string" where
  \<comment> \<open>"boolean values are rendered as 1 or 0; strings and integers in their natural
      string form"\<close>
  "rendered_value (PBool True) = ''1''"
| "rendered_value (PBool False) = ''0''"
| "rendered_value (PStr s) = s"
| "rendered_value (PInt i) = str_int i"

fun described_flags :: "options \<Rightarrow> string" where
  \<comment> \<open>"one token \<^verbatim>\<open>--key=value\<close> per entry, in the mapping's order, joined with single
      spaces; the empty string for the empty mapping"\<close>
  "described_flags [] = []"
| "described_flags [(k, v)] = ''--'' @ k @ ''='' @ rendered_value v"
| "described_flags ((k, v) # kv # rest) =
     ''--'' @ k @ ''='' @ rendered_value v @ '' '' @ described_flags (kv # rest)"

section \<open>Properties\<close>

subsection \<open>What \<^const>\<open>fullmatch\<close> decides\<close>

lemma nullable_lang: "nullable r \<longleftrightarrow> [] \<in> lang r"
  by (induction r) (auto intro: star.star_nil)

lemma star_Cons_aux:
  "x \<in> star A \<Longrightarrow> x = c # w \<Longrightarrow> \<exists>u v. w = u @ v \<and> c # u \<in> A \<and> v \<in> star A"
proof (induction arbitrary: w rule: star.induct)
  case star_nil
  then show ?case by simp
next
  case (star_app u v)
  show ?case
  proof (cases u)
    case Nil
    with star_app show ?thesis by simp
  next
    case (Cons a u')
    with star_app.prems have "a = c" "w = u' @ v" by simp_all
    with Cons star_app.hyps show ?thesis by blast
  qed
qed

lemma star_Cons:
  "c # w \<in> star A \<longleftrightarrow> (\<exists>u v. w = u @ v \<and> c # u \<in> A \<and> v \<in> star A)"
proof
  assume "c # w \<in> star A"
  then show "\<exists>u v. w = u @ v \<and> c # u \<in> A \<and> v \<in> star A"
    by (rule star_Cons_aux) simp
next
  assume "\<exists>u v. w = u @ v \<and> c # u \<in> A \<and> v \<in> star A"
  then obtain u v where "w = u @ v" "c # u \<in> A" "v \<in> star A" by blast
  then have "(c # u) @ v \<in> star A" by (intro star.star_app)
  with \<open>w = u @ v\<close> show "c # w \<in> star A" by simp
qed

lemma lang_deriv: "w \<in> lang (deriv c r) \<longleftrightarrow> c # w \<in> lang r"
proof (induction r arbitrary: w)
  case (Cat r s)
  show ?case
  proof (cases "nullable r")
    case True
    then have "[] \<in> lang r" by (simp add: nullable_lang)
    with True Cat show ?thesis
      by (auto simp: Cons_eq_append_conv)
  next
    case False
    then have "[] \<notin> lang r" by (simp add: nullable_lang)
    with False Cat show ?thesis
      by (auto simp: Cons_eq_append_conv)
  qed
next
  case (Rep r)
  then show ?case by (auto simp: star_Cons)
qed auto

lemma fullmatch_lang: "fullmatch r s \<longleftrightarrow> s \<in> lang r"
  by (induction s arbitrary: r) (simp_all add: nullable_lang lang_deriv)

lemma star_chars: "star {[c] | c. P c} = {w. \<forall>c\<in>set w. P c}"
proof (rule set_eqI, rule iffI)
  fix w assume "w \<in> star {[c] | c. P c}"
  then show "w \<in> {w. \<forall>c\<in>set w. P c}"
    by (induction rule: star.induct) auto
next
  fix w assume "w \<in> {w. \<forall>c\<in>set w. P c}"
  then show "w \<in> star {[c] | c. P c}"
  proof (induction w)
    case Nil
    show ?case by (rule star.star_nil)
  next
    case (Cons a w)
    then have "[a] \<in> {[c] | c. P c}" "w \<in> star {[c] | c. P c}" by auto
    then have "[a] @ w \<in> star {[c] | c. P c}" by (rule star.star_app)
    then show ?case by simp
  qed
qed


lemma star_charsD: "v \<in> star {[c] | c. P c} \<Longrightarrow> \<forall>x\<in>set v. P x"
  using star_chars[of P] by simp

lemma star_charsI: "\<forall>x\<in>set v. P x \<Longrightarrow> v \<in> star {[c] | c. P c}"
  using star_chars[of P] by simp

lemma Plus_chars_iff:
  "w \<in> {u @ v | u v. u \<in> {[c] | c. P c} \<and> v \<in> star {[c] | c. P c}}
     \<longleftrightarrow> w \<noteq> [] \<and> (\<forall>c\<in>set w. P c)"
proof
  assume "w \<in> {u @ v | u v. u \<in> {[c] | c. P c} \<and> v \<in> star {[c] | c. P c}}"
  then have "\<exists>u v. w = u @ v \<and> u \<in> {[c] | c. P c} \<and> v \<in> star {[c] | c. P c}"
    by (elim CollectE)
  then obtain u v where w: "w = u @ v" and u: "u \<in> {[c] | c. P c}"
    and v: "v \<in> star {[c] | c. P c}"
    by blast
  from u have "\<exists>c. u = [c] \<and> P c" by (elim CollectE)
  then obtain c where c: "u = [c]" "P c" by blast
  from v have "\<forall>x\<in>set v. P x" by (rule star_charsD)
  with w c show "w \<noteq> [] \<and> (\<forall>c\<in>set w. P c)" by simp
next
  assume r: "w \<noteq> [] \<and> (\<forall>c\<in>set w. P c)"
  then obtain c v where w: "w = c # v" by (cases w) simp_all
  from r w have c: "P c" and "\<forall>x\<in>set v. P x" by simp_all
  then have v: "v \<in> star {[c] | c. P c}" by (intro star_charsI)
  have u: "[c] \<in> {[c] | c. P c}" using c by (intro CollectI exI[of _ c] conjI refl)
  have w': "w = [c] @ v" using w by simp
  show "w \<in> {u @ v | u v. u \<in> {[c] | c. P c} \<and> v \<in> star {[c] | c. P c}}"
  proof (rule CollectI, rule exI[of _ "[c]"], rule exI[of _ v])
    show "w = [c] @ v \<and> [c] \<in> {[c] | c. P c} \<and> v \<in> star {[c] | c. P c}"
      using w' u v by (intro conjI)
  qed
qed

lemma Plus_chars:
  "{u @ v | u v. u \<in> {[c] | c. P c} \<and> v \<in> star {[c] | c. P c}} = {w. w \<noteq> [] \<and> (\<forall>c\<in>set w. P c)}"
  using Plus_chars_iff[of _ P] by (intro set_eqI) simp

lemma lang_Plus_Dot: "lang (Plus Dot) = {w. w \<noteq> [] \<and> newline \<notin> set w}"
proof -
  have "lang (Plus Dot) = {w. w \<noteq> [] \<and> (\<forall>c\<in>set w. c \<noteq> newline)}"
    unfolding Plus_def lang.simps by (rule Plus_chars)
  also have "\<dots> = {w. w \<noteq> [] \<and> newline \<notin> set w}" by blast
  finally show ?thesis .
qed

lemma lang_Plus_Digit: "lang (Plus Digit) = {w. w \<noteq> [] \<and> (\<forall>c\<in>set w. is_digit c)}"
  unfolding Plus_def lang.simps by (rule Plus_chars)

lemma lang_Opt_tpu: "lang (Opt (Lits ''tpu-'')) = {[], ''tpu-''}"
  by (auto simp: Opt_def)

lemma lang_Cat_iff:
  "w \<in> lang (Cat r s) \<longleftrightarrow> (\<exists>u v. w = u @ v \<and> u \<in> lang r \<and> v \<in> lang s)"
  unfolding lang.simps by (rule mem_Collect_eq)

lemma lang_CatI: "u \<in> lang r \<Longrightarrow> v \<in> lang s \<Longrightarrow> u @ v \<in> lang (Cat r s)"
  unfolding lang_Cat_iff by blast

lemma lang_tpu_pattern:
  "s \<in> lang tpu_pattern \<longleftrightarrow>
     (\<exists>p mid ds. s = p @ ''v'' @ mid @ ''-'' @ ds \<and> (p = [] \<or> p = ''tpu-'') \<and>
        mid \<noteq> [] \<and> newline \<notin> set mid \<and> ds \<noteq> [] \<and> (\<forall>d\<in>set ds. is_digit d))"
proof
  assume "s \<in> lang tpu_pattern"
  then obtain p a mid b ds where s: "s = p @ a @ mid @ b @ ds"
    and p: "p \<in> lang (Opt (Lits ''tpu-''))" and a: "a \<in> lang (Lit CHR ''v'')"
    and mid: "mid \<in> lang (Plus Dot)" and b: "b \<in> lang (Lit CHR ''-'')"
    and ds: "ds \<in> lang (Plus Digit)"
    unfolding tpu_pattern_def lang_Cat_iff by blast
  from a b have ab: "a = ''v''" "b = ''-''" by simp_all
  from p have p': "p = [] \<or> p = ''tpu-''" unfolding lang_Opt_tpu by blast
  from mid have mid': "mid \<noteq> [] \<and> newline \<notin> set mid" unfolding lang_Plus_Dot by blast
  from ds have ds': "ds \<noteq> [] \<and> (\<forall>d\<in>set ds. is_digit d)" unfolding lang_Plus_Digit by blast
  from s ab p' mid' ds'
  show "\<exists>p mid ds. s = p @ ''v'' @ mid @ ''-'' @ ds \<and> (p = [] \<or> p = ''tpu-'') \<and>
        mid \<noteq> [] \<and> newline \<notin> set mid \<and> ds \<noteq> [] \<and> (\<forall>d\<in>set ds. is_digit d)"
    by blast
next
  assume "\<exists>p mid ds. s = p @ ''v'' @ mid @ ''-'' @ ds \<and> (p = [] \<or> p = ''tpu-'') \<and>
        mid \<noteq> [] \<and> newline \<notin> set mid \<and> ds \<noteq> [] \<and> (\<forall>d\<in>set ds. is_digit d)"
  then obtain p mid ds where s: "s = p @ ''v'' @ mid @ ''-'' @ ds"
    and p: "p = [] \<or> p = ''tpu-''" and mid: "mid \<noteq> []" "newline \<notin> set mid"
    and ds: "ds \<noteq> []" "\<forall>d\<in>set ds. is_digit d"
    by blast
  have 1: "p \<in> lang (Opt (Lits ''tpu-''))" unfolding lang_Opt_tpu using p by blast
  have 2: "''v'' \<in> lang (Lit CHR ''v'')" by simp
  have 3: "mid \<in> lang (Plus Dot)" unfolding lang_Plus_Dot using mid by blast
  have 4: "''-'' \<in> lang (Lit CHR ''-'')" by simp
  have 5: "ds \<in> lang (Plus Digit)" unfolding lang_Plus_Digit using ds by blast
  note a = lang_CatI[OF 4 5]
  note b = lang_CatI[OF 3 a]
  note c = lang_CatI[OF 2 b]
  note d = lang_CatI[OF 1 c]
  show "s \<in> lang tpu_pattern"
    unfolding tpu_pattern_def s by (rule d)
qed

subsection \<open>Strings, splitting and dictionaries\<close>

lemma str_replace_from_tpu_prefix:
  "str_replace_from ''tpu-'' new (''tpu-'' @ b) = new @ str_replace_from ''tpu-'' new b"
  by simp

lemma dropWhile_all_append:
  "\<forall>x\<in>set xs. P x \<Longrightarrow> dropWhile P (xs @ ys) = dropWhile P ys"
  by (induction xs) auto

lemma takeWhile_all_append:
  "\<forall>x\<in>set xs. P x \<Longrightarrow> takeWhile P (xs @ ys) = xs @ takeWhile P ys"
  by (induction xs) auto

lemma rsplit1_last:
  assumes "sep \<notin> set rest"
  shows "rsplit1 (v @ sep # rest) sep = [v, rest]"
proof -
  let ?P = "\<lambda>x. x \<noteq> sep"
  have all: "\<forall>x\<in>set (rev rest). ?P x" using assms by auto
  have r: "rev (v @ sep # rest) = rev rest @ sep # rev v" by simp
  have d: "dropWhile ?P (rev rest @ sep # rev v) = sep # rev v"
    using dropWhile_all_append[OF all, of "sep # rev v"] by simp
  have t: "takeWhile ?P (rev rest @ sep # rev v) = rev rest"
    using takeWhile_all_append[OF all, of "sep # rev v"] by simp
  show ?thesis
    unfolding rsplit1_def r d t by simp
qed

lemma rsplit1_none: "sep \<notin> set s \<Longrightarrow> rsplit1 s sep = [s]"
  by (simp add: rsplit1_def)

lemma flags_loop_acc: "flags_loop opts acc = acc @ map (\<lambda>(k, v). flag_token k v) opts"
  by (induction opts arbitrary: acc) auto

lemma flag_token_rendered: "flag_token k v = ''--'' @ k @ ''='' @ rendered_value v"
  by (cases v rule: rendered_value.cases) (simp_all add: flag_token_def)

lemma map_of_dict_set: "map_of (dict_set d k v) = (map_of d)(k \<mapsto> v)"
  by (induction d k v rule: dict_set.induct) auto

lemma keys_dict_set: "fst ` set (dict_set d k v) = insert k (fst ` set d)"
  by (induction d k v rule: dict_set.induct) auto

lemma keys_dict_update: "fst ` set (dict_update d kw) = fst ` set d \<union> fst ` set kw"
  by (induction d kw rule: dict_update.induct) (auto simp: keys_dict_set)

subsection \<open>Unsupported backends\<close>

text \<open>
  C3. Whatever the instance type and the number of slices, a backend other than
  \<^verbatim>\<open>"tpu"\<close> makes \<^const>\<open>default_xla_options\<close> raise \<^verbatim>\<open>NotImplementedError(backend)\<close>.
  The instance type is not looked at: an invalid one gives the same error.
\<close>

theorem default_xla_options_unsupported_backend:
  "backend \<noteq> ''tpu'' \<Longrightarrow>
     default_xla_options instance_type num_slices backend = Inl (NotImplementedError backend)"
  by (simp add: default_xla_options_def)

theorem default_xla_options_unsupported_backend_witness:
  "''gpu'' \<noteq> ''tpu'' \<and>
   default_xla_options ''garbage'' 0 ''gpu'' = Inl (NotImplementedError ''gpu'') \<and>
   infer_tpu_type ''garbage'' = Inl (NotTpuError ''Invalid TPU instance: garbage'')"
proof -
  have "infer_tpu_type ''garbage'' = Inl (NotTpuError ''Invalid TPU instance: garbage'')"
    by code_simp
  then show ?thesis
    using default_xla_options_unsupported_backend[of "''gpu''" "''garbage''" 0] by simp
qed

subsection \<open>What \<^const>\<open>infer_tpu_type\<close> accepts and returns\<close>

lemma infer_tpu_type_Inr_iff:
  "(\<exists>t. infer_tpu_type s = Inr t) \<longleftrightarrow> s \<in> lang tpu_pattern"
proof -
  have "[] \<notin> lang tpu_pattern" unfolding lang_tpu_pattern by simp
  then have "s \<in> lang tpu_pattern \<Longrightarrow> s \<noteq> []" by blast
  then show ?thesis
    unfolding infer_tpu_type_def fullmatch_lang by auto
qed

lemma infer_tpu_type_Inl:
  "s \<notin> lang tpu_pattern \<Longrightarrow>
     infer_tpu_type s = Inl (NotTpuError (''Invalid TPU instance: '' @ s))"
  unfolding infer_tpu_type_def fullmatch_lang by simp

lemma infer_tpu_type_Inr:
  "s \<in> lang tpu_pattern \<Longrightarrow> infer_tpu_type s = Inr (str_replace_from ''tpu-'' [] s)"
proof -
  have "[] \<notin> lang tpu_pattern" unfolding lang_tpu_pattern by simp
  then have "s \<in> lang tpu_pattern \<Longrightarrow> s \<noteq> []" by blast
  then show "s \<in> lang tpu_pattern \<Longrightarrow> infer_tpu_type s = Inr (str_replace_from ''tpu-'' [] s)"
    unfolding infer_tpu_type_def fullmatch_lang str_replace_def by simp
qed

lemma strip_tpu_prefix_shape:
  assumes "p = [] \<or> p = ''tpu-''"
  shows "strip_tpu_prefix (p @ ''v'' @ rest) = ''v'' @ rest"
  using assms by (auto simp: strip_tpu_prefix_def)

lemma infer_tpu_type_Inr_shape:
  assumes "infer_tpu_type s = Inr t"
  shows "\<exists>c mid ds. strip_tpu_prefix s = ''v'' @ (c # mid) @ ''-'' @ ds \<and>
           newline \<notin> set (c # mid) \<and> ds \<noteq> [] \<and> (\<forall>d\<in>set ds. is_digit d)"
proof -
  from assms have "s \<in> lang tpu_pattern" using infer_tpu_type_Inr_iff[of s] by blast
  then obtain p mid ds where s: "s = p @ ''v'' @ mid @ ''-'' @ ds"
    and p: "p = [] \<or> p = ''tpu-''" and mid: "mid \<noteq> []" "newline \<notin> set mid"
    and ds: "ds \<noteq> []" "\<forall>d\<in>set ds. is_digit d"
    unfolding lang_tpu_pattern by blast
  from mid obtain c m where cm: "mid = c # m" by (cases mid) simp_all
  have "strip_tpu_prefix s = ''v'' @ mid @ ''-'' @ ds"
    unfolding s by (rule strip_tpu_prefix_shape[OF p])
  with cm mid ds show ?thesis by blast
qed

text \<open>
  C4, as described: every non-empty string of the shape \<^verbatim>\<open>(tpu-)?<anything>-<digits>\<close> is
  accepted. The string \<^verbatim>\<open>x4-8\<close> has that shape and \<^const>\<open>infer_tpu_type\<close> raises
  \<^verbatim>\<open>NotTpuError\<close> on it: the pattern of the code asks for a \<^verbatim>\<open>v\<close> in front.
\<close>

theorem infer_tpu_type_rejects_described_shape:
  "''x4-8'' \<noteq> [] \<and> fullmatch described_pattern ''x4-8'' \<and>
   infer_tpu_type ''x4-8'' = Inl (NotTpuError ''Invalid TPU instance: x4-8'')"
  by code_simp

text \<open>
  C4, as the code has it: \<^const>\<open>infer_tpu_type\<close> succeeds exactly on the strings made of an
  optional \<^verbatim>\<open>tpu-\<close>, the letter \<^verbatim>\<open>v\<close>, one or more characters other than a line feed,
  a hyphen, and one or more digits. On every other string it raises \<^verbatim>\<open>NotTpuError\<close> with
  the message \<^verbatim>\<open>Invalid TPU instance: \<close> followed by the string; the empty string,
  \<^verbatim>\<open>garbage\<close> and \<^verbatim>\<open>v4\<close> are among these.
\<close>

theorem infer_tpu_type_accepts_exactly:
  "((\<exists>p mid ds. s = p @ ''v'' @ mid @ ''-'' @ ds \<and> (p = [] \<or> p = ''tpu-'') \<and>
        mid \<noteq> [] \<and> newline \<notin> set mid \<and> ds \<noteq> [] \<and> (\<forall>d\<in>set ds. is_digit d))
      \<longrightarrow> (\<exists>t. infer_tpu_type s = Inr t)) \<and>
   (\<not> (\<exists>p mid ds. s = p @ ''v'' @ mid @ ''-'' @ ds \<and> (p = [] \<or> p = ''tpu-'') \<and>
        mid \<noteq> [] \<and> newline \<notin> set mid \<and> ds \<noteq> [] \<and> (\<forall>d\<in>set ds. is_digit d))
      \<longrightarrow> infer_tpu_type s = Inl (NotTpuError (''Invalid TPU instance: '' @ s))) \<and>
   infer_tpu_type '''' = Inl (NotTpuError ''Invalid TPU instance: '') \<and>
   infer_tpu_type ''garbage'' = Inl (NotTpuError ''Invalid TPU instance: garbage'') \<and>
   infer_tpu_type ''v4'' = Inl (NotTpuError ''Invalid TPU instance: v4'')"
proof (intro conjI impI)
  assume "\<exists>p mid ds. s = p @ ''v'' @ mid @ ''-'' @ ds \<and> (p = [] \<or> p = ''tpu-'') \<and>
        mid \<noteq> [] \<and> newline \<notin> set mid \<and> ds \<noteq> [] \<and> (\<forall>d\<in>set ds. is_digit d)"
  then have "s \<in> lang tpu_pattern" unfolding lang_tpu_pattern .
  then show "\<exists>t. infer_tpu_type s = Inr t" by (simp only: infer_tpu_type_Inr_iff)
next
  assume "\<not> (\<exists>p mid ds. s = p @ ''v'' @ mid @ ''-'' @ ds \<and> (p = [] \<or> p = ''tpu-'') \<and>
        mid \<noteq> [] \<and> newline \<notin> set mid \<and> ds \<noteq> [] \<and> (\<forall>d\<in>set ds. is_digit d))"
  then have "s \<notin> lang tpu_pattern" unfolding lang_tpu_pattern .
  then show "infer_tpu_type s = Inl (NotTpuError (''Invalid TPU instance: '' @ s))"
    by (rule infer_tpu_type_Inl)
next
  show "infer_tpu_type '''' = Inl (NotTpuError ''Invalid TPU instance: '')" by code_simp
  show "infer_tpu_type ''garbage'' = Inl (NotTpuError ''Invalid TPU instance: garbage'')" by code_simp
  show "infer_tpu_type ''v4'' = Inl (NotTpuError ''Invalid TPU instance: v4'')" by code_simp
qed

theorem infer_tpu_type_accepts_exactly_witness:
  "(\<exists>t. infer_tpu_type ''tpu-v5p-2048'' = Inr t) \<and>
   infer_tpu_type ''tpu-x4-8'' = Inl (NotTpuError ''Invalid TPU instance: tpu-x4-8'')"
proof -
  have d: "\<forall>d\<in>set ''2048''. is_digit d" by (simp add: is_digit_def)
  have n: "newline \<notin> set ''5p''" by (simp add: newline_def)
  have "''tpu-v5p-2048'' = ''tpu-'' @ ''v'' @ ''5p'' @ ''-'' @ ''2048'' \<and> (''tpu-'' = [] \<or> ''tpu-'' = ''tpu-'') \<and>
        ''5p'' \<noteq> [] \<and> newline \<notin> set ''5p'' \<and> ''2048'' \<noteq> [] \<and> (\<forall>d\<in>set ''2048''. is_digit d)"
    using d n by simp
  then have ex: "\<exists>p mid ds. ''tpu-v5p-2048'' = p @ ''v'' @ mid @ ''-'' @ ds \<and> (p = [] \<or> p = ''tpu-'') \<and>
        mid \<noteq> [] \<and> newline \<notin> set mid \<and> ds \<noteq> [] \<and> (\<forall>d\<in>set ds. is_digit d)"
    by blast
  have bad: "infer_tpu_type ''tpu-x4-8'' = Inl (NotTpuError ''Invalid TPU instance: tpu-x4-8'')"
    by code_simp
  from infer_tpu_type_accepts_exactly[of "''tpu-v5p-2048''"] ex bad show ?thesis by blast
qed

text \<open>
  C10. The token after the optional \<^verbatim>\<open>tpu-\<close> must begin with \<^verbatim>\<open>v\<close> and go on for at least
  one more character: a string that, once a leading \<^verbatim>\<open>tpu-\<close> is taken off, does not start
  with \<^verbatim>\<open>v\<close> is rejected with \<^verbatim>\<open>NotTpuError\<close>, and an accepted string has a further
  character after that \<^verbatim>\<open>v\<close>. \<^verbatim>\<open>x4-8\<close> and \<^verbatim>\<open>tpu-x4-8\<close> are rejected.
\<close>

theorem infer_tpu_type_requires_v:
  "(\<not> (\<exists>rest. strip_tpu_prefix s = CHR ''v'' # rest) \<longrightarrow>
      infer_tpu_type s = Inl (NotTpuError (''Invalid TPU instance: '' @ s))) \<and>
   ((\<exists>t. infer_tpu_type s = Inr t) \<longrightarrow>
      (\<exists>c rest. strip_tpu_prefix s = CHR ''v'' # c # rest)) \<and>
   infer_tpu_type ''x4-8'' = Inl (NotTpuError ''Invalid TPU instance: x4-8'') \<and>
   infer_tpu_type ''tpu-x4-8'' = Inl (NotTpuError ''Invalid TPU instance: tpu-x4-8'')"
proof (intro conjI impI)
  assume ok: "\<exists>t. infer_tpu_type s = Inr t"
  then obtain t where "infer_tpu_type s = Inr t" by blast
  from infer_tpu_type_Inr_shape[OF this]
  show "\<exists>c rest. strip_tpu_prefix s = CHR ''v'' # c # rest" by auto
next
  assume nv: "\<not> (\<exists>rest. strip_tpu_prefix s = CHR ''v'' # rest)"
  have "s \<notin> lang tpu_pattern"
  proof
    assume "s \<in> lang tpu_pattern"
    then obtain t where "infer_tpu_type s = Inr t" using infer_tpu_type_Inr_iff[of s] by blast
    from infer_tpu_type_Inr_shape[OF this] nv show False by auto
  qed
  then show "infer_tpu_type s = Inl (NotTpuError (''Invalid TPU instance: '' @ s))"
    by (rule infer_tpu_type_Inl)
next
  show "infer_tpu_type ''x4-8'' = Inl (NotTpuError ''Invalid TPU instance: x4-8'')"
    by code_simp
  show "infer_tpu_type ''tpu-x4-8'' = Inl (NotTpuError ''Invalid TPU instance: tpu-x4-8'')"
    by code_simp
qed

theorem infer_tpu_type_requires_v_witness:
  "strip_tpu_prefix ''tpu-x4-8'' = ''x4-8'' \<and>
   infer_tpu_type ''tpu-x4-8'' = Inl (NotTpuError ''Invalid TPU instance: tpu-x4-8'') \<and>
   infer_tpu_type ''v-8'' = Inl (NotTpuError ''Invalid TPU instance: v-8'')"
proof -
  have s: "strip_tpu_prefix ''tpu-x4-8'' = ''x4-8''" by code_simp
  then have "\<not> (\<exists>rest. strip_tpu_prefix ''tpu-x4-8'' = CHR ''v'' # rest)" by simp
  with infer_tpu_type_requires_v[of "''tpu-x4-8''"]
  have a: "infer_tpu_type ''tpu-x4-8'' = Inl (NotTpuError (''Invalid TPU instance: '' @ ''tpu-x4-8''))"
    by blast
  have b: "infer_tpu_type ''v-8'' = Inl (NotTpuError ''Invalid TPU instance: v-8'')" by code_simp
  from s a b show ?thesis by simp
qed

text \<open>
  C5. The result is described as the input with a leading \<^verbatim>\<open>tpu-\<close> removed and the rest
  unchanged. The code calls \<^verbatim>\<open>instance_type.replace("tpu-", "")\<close>, which removes every
  occurrence: \<^verbatim>\<open>vtpu-4-8\<close> is accepted, has no leading \<^verbatim>\<open>tpu-\<close>, and comes back as
  \<^verbatim>\<open>v4-8\<close>. The two examples of the description come out as described.
\<close>

theorem infer_tpu_type_removes_inner_tpu:
  "infer_tpu_type ''vtpu-4-8'' = Inr ''v4-8'' \<and>
   strip_tpu_prefix ''vtpu-4-8'' = ''vtpu-4-8'' \<and>
   infer_tpu_type ''tpu-v5p-2048'' = Inr ''v5p-2048'' \<and>
   infer_tpu_type ''v4-8'' = Inr ''v4-8''"
  by code_simp

text \<open>
  Where \<^verbatim>\<open>tpu-\<close> occurs nowhere but as the leading prefix, the result is the input
  without that prefix, as described.
\<close>

lemma str_replace_from_absent:
  "\<not> sublist old x \<Longrightarrow> str_replace_from old new x = x"
proof (induction old new x rule: str_replace_from.induct)
  case (1 old new)
  show ?case by simp
next
  case (2 old new c cs)
  from "2.prems" have np: "\<not> prefix old (c # cs)" and ns: "\<not> sublist old cs"
    by (simp_all add: sublist_Cons_right)
  from np have "\<not> (old \<noteq> [] \<and> prefix old (c # cs))" by simp
  from "2.IH"(2)[OF this ns] have "str_replace_from old new cs = cs" .
  with np show ?case by simp
qed

lemma infer_tpu_type_strips_prefix:
  assumes "infer_tpu_type s = Inr t" and "\<not> sublist ''tpu-'' (strip_tpu_prefix s)"
  shows "t = strip_tpu_prefix s"
proof -
  from assms(1) have "s \<in> lang tpu_pattern" using infer_tpu_type_Inr_iff[of s] by blast
  then have t: "t = str_replace_from ''tpu-'' [] s"
    using infer_tpu_type_Inr[of s] assms(1) by simp
  show ?thesis
  proof (cases "prefix ''tpu-'' s")
    case True
    then obtain r where r: "s = ''tpu-'' @ r" by (auto simp: prefix_def)
    then have sr: "strip_tpu_prefix s = r" by (simp add: strip_tpu_prefix_def)
    have "str_replace_from ''tpu-'' [] (''tpu-'' @ r) = str_replace_from ''tpu-'' [] r"
      using str_replace_from_tpu_prefix[of "[]" r] by simp
    also have "\<dots> = r" using assms(2) sr by (simp add: str_replace_from_absent)
    finally show ?thesis using t r sr by simp
  next
    case False
    then have "strip_tpu_prefix s = s" by (simp add: strip_tpu_prefix_def)
    with assms(2) t show ?thesis by (simp add: str_replace_from_absent)
  qed
qed

text \<open>
  C8. When \<^verbatim>\<open>tpu-<v>-<n>\<close> and \<^verbatim>\<open><v>-<n>\<close> are both accepted, \<^const>\<open>infer_tpu_type\<close>
  returns the same result on both.
\<close>

theorem infer_tpu_type_prefix_irrelevant:
  assumes "\<exists>t. infer_tpu_type (''tpu-'' @ v @ ''-'' @ n) = Inr t"
    and "\<exists>t. infer_tpu_type (v @ ''-'' @ n) = Inr t"
  shows "infer_tpu_type (''tpu-'' @ v @ ''-'' @ n) = infer_tpu_type (v @ ''-'' @ n)"
proof -
  from assms have a: "''tpu-'' @ v @ ''-'' @ n \<in> lang tpu_pattern"
    and b: "v @ ''-'' @ n \<in> lang tpu_pattern"
    unfolding infer_tpu_type_Inr_iff by blast+
  have "infer_tpu_type (''tpu-'' @ v @ ''-'' @ n)
      = Inr (str_replace_from ''tpu-'' [] (''tpu-'' @ v @ ''-'' @ n))"
    by (rule infer_tpu_type_Inr[OF a])
  also have "\<dots> = Inr (str_replace_from ''tpu-'' [] (v @ ''-'' @ n))"
    using str_replace_from_tpu_prefix[of "[]" "v @ ''-'' @ n"] by simp
  also have "\<dots> = infer_tpu_type (v @ ''-'' @ n)"
    by (rule infer_tpu_type_Inr[OF b, symmetric])
  finally show ?thesis .
qed

theorem infer_tpu_type_prefix_irrelevant_witness:
  "infer_tpu_type ''tpu-v5p-2048'' = infer_tpu_type ''v5p-2048'' \<and>
   infer_tpu_type ''v5p-2048'' = Inr ''v5p-2048''"
proof -
  have a: "infer_tpu_type ''tpu-v5p-2048'' = Inr ''v5p-2048''" by code_simp
  have b: "infer_tpu_type ''v5p-2048'' = Inr ''v5p-2048''" by code_simp
  have "infer_tpu_type (''tpu-'' @ ''v5p'' @ ''-'' @ ''2048'')
      = infer_tpu_type (''v5p'' @ ''-'' @ ''2048'')"
    by (rule infer_tpu_type_prefix_irrelevant) (simp_all add: a b)
  with b show ?thesis by simp
qed

subsection \<open>\<^const>\<open>infer_tpu_version\<close>\<close>

lemma repr_TPU_VERSIONS:
  "repr_tuple TPU_VERSIONS = ''('v3', 'v4', 'v5litepod', 'v5p', 'v6e')''"
  by code_simp

lemma index0_rsplit1_last:
  "sep \<notin> set rest \<Longrightarrow> index0 (rsplit1 (v @ sep # rest) sep) = Inr v"
  by (simp add: rsplit1_last index0_def)

text \<open>
  C6. \<^const>\<open>infer_tpu_version\<close> first runs \<^const>\<open>infer_tpu_type\<close> and passes its error on.
  Otherwise it takes what stands before the last hyphen of the normalized token: it
  returns that when it is one of \<^verbatim>\<open>v3\<close>, \<^verbatim>\<open>v4\<close>, \<^verbatim>\<open>v5litepod\<close>, \<^verbatim>\<open>v5p\<close>, \<^verbatim>\<open>v6e\<close>, and
  raises a \<^verbatim>\<open>ValueError\<close> naming it and the five versions when it is not.
  \<^verbatim>\<open>v7-8\<close> fails in that way and \<^verbatim>\<open>v5p-2048\<close> gives \<^verbatim>\<open>v5p\<close>.
\<close>

theorem infer_tpu_version_last_hyphen:
  "(infer_tpu_type s = Inl e \<longrightarrow> infer_tpu_version s = Inl e) \<and>
   (infer_tpu_type s = Inr (v @ ''-'' @ cores) \<and> CHR ''-'' \<notin> set cores \<longrightarrow>
      infer_tpu_version s =
        (if v \<in> set [''v3'', ''v4'', ''v5litepod'', ''v5p'', ''v6e''] then Inr v
         else Inl (ValueError (''Unknown TPU version '' @ v @
                ''. Expected one of ('v3', 'v4', 'v5litepod', 'v5p', 'v6e')'')))) \<and>
   infer_tpu_version ''v7-8'' =
     Inl (ValueError
       ''Unknown TPU version v7. Expected one of ('v3', 'v4', 'v5litepod', 'v5p', 'v6e')'') \<and>
   infer_tpu_version ''v5p-2048'' = Inr ''v5p''"
proof (intro conjI impI)
  assume "infer_tpu_type s = Inl e"
  then show "infer_tpu_version s = Inl e" by (simp add: infer_tpu_version_def)
next
  assume a: "infer_tpu_type s = Inr (v @ ''-'' @ cores) \<and> CHR ''-'' \<notin> set cores"
  then have i: "index0 (rsplit1 (v @ ''-'' @ cores) CHR ''-'') = Inr v"
    using index0_rsplit1_last[of "CHR ''-''" cores v] by simp
  have vs: "set TPU_VERSIONS = set [''v3'', ''v4'', ''v5litepod'', ''v5p'', ''v6e'']"
    by (simp add: TPU_VERSIONS_def)
  show "infer_tpu_version s =
        (if v \<in> set [''v3'', ''v4'', ''v5litepod'', ''v5p'', ''v6e''] then Inr v
         else Inl (ValueError (''Unknown TPU version '' @ v @
                ''. Expected one of ('v3', 'v4', 'v5litepod', 'v5p', 'v6e')'')))"
    unfolding infer_tpu_version_def using a i
    by (simp only: sum.case repr_TPU_VERSIONS vs split: if_splits) simp
next
  show "infer_tpu_version ''v7-8'' =
     Inl (ValueError
       ''Unknown TPU version v7. Expected one of ('v3', 'v4', 'v5litepod', 'v5p', 'v6e')'')"
    by code_simp
  show "infer_tpu_version ''v5p-2048'' = Inr ''v5p''" by code_simp
qed

theorem infer_tpu_version_last_hyphen_witness:
  "infer_tpu_type ''tpu-v4-8'' = Inr ''v4-8'' \<and> infer_tpu_version ''tpu-v4-8'' = Inr ''v4'' \<and>
   infer_tpu_version ''garbage'' = Inl (NotTpuError ''Invalid TPU instance: garbage'')"
proof -
  have t: "infer_tpu_type ''tpu-v4-8'' = Inr (''v4'' @ ''-'' @ ''8'') \<and> CHR ''-'' \<notin> set ''8''"
    by code_simp
  have g: "infer_tpu_type ''garbage'' = Inl (NotTpuError ''Invalid TPU instance: garbage'')"
    by code_simp
  from infer_tpu_version_last_hyphen[of "''tpu-v4-8''" _ "''v4''" "''8''"] t
  have 1: "infer_tpu_version ''tpu-v4-8'' = Inr ''v4''" by simp
  from infer_tpu_version_last_hyphen[of "''garbage''" "NotTpuError ''Invalid TPU instance: garbage''"] g
  have 2: "infer_tpu_version ''garbage'' = Inl (NotTpuError ''Invalid TPU instance: garbage'')"
    by blast
  from t 1 2 show ?thesis by simp
qed

text \<open>
  A normalized token with no hyphen is taken whole as the version: \<^verbatim>\<open>rsplit\<close> does not
  split it. \<^verbatim>\<open>vtpu-4\<close> is such an input.
\<close>

lemma infer_tpu_version_no_hyphen:
  assumes "infer_tpu_type s = Inr t" and "CHR ''-'' \<notin> set t"
  shows "infer_tpu_version s =
        (if t \<in> set TPU_VERSIONS then Inr t
         else Inl (ValueError (''Unknown TPU version '' @ t @
                ''. Expected one of ('v3', 'v4', 'v5litepod', 'v5p', 'v6e')'')))"
  using assms
  by (simp add: infer_tpu_version_def rsplit1_none index0_def repr_TPU_VERSIONS)

lemma infer_tpu_version_no_hyphen_example:
  "infer_tpu_type ''vtpu-4'' = Inr ''v4'' \<and> infer_tpu_version ''vtpu-4'' = Inr ''v4''"
  by code_simp

subsection \<open>\<^const>\<open>xla_flags_from_options\<close>\<close>

lemma described_flags_join:
  "described_flags opts = str_join '' '' (map (\<lambda>(k, v). flag_token k v) opts)"
  by (induction opts rule: described_flags.induct) (simp_all add: flag_token_rendered)

text \<open>
  C7. For every option mapping, \<^const>\<open>xla_flags_from_options\<close> gives one token
  \<^verbatim>\<open>--key=value\<close> per entry, in the order of the mapping, with \<^verbatim>\<open>True\<close> written \<^verbatim>\<open>1\<close>,
  \<^verbatim>\<open>False\<close> written \<^verbatim>\<open>0\<close>, strings and integers written as they are, and single spaces
  between the tokens. The empty mapping gives the empty string, and
  \<^verbatim>\<open>{"a": True, "b": "false", "c": 5}\<close> gives \<^verbatim>\<open>--a=1 --b=false --c=5\<close>.
\<close>

theorem xla_flags_from_options_described:
  "xla_flags_from_options opts = described_flags opts \<and>
   xla_flags_from_options [] = [] \<and>
   xla_flags_from_options [(''a'', PBool True), (''b'', PStr ''false''), (''c'', PInt 5)]
     = ''--a=1 --b=false --c=5''"
proof (intro conjI)
  show eq: "xla_flags_from_options opts = described_flags opts" for opts
    by (simp add: xla_flags_from_options_def flags_loop_acc described_flags_join)
  show "xla_flags_from_options [] = []" by (simp add: xla_flags_from_options_def)
  show "xla_flags_from_options [(''a'', PBool True), (''b'', PStr ''false''), (''c'', PInt 5)]
     = ''--a=1 --b=false --c=5''" by code_simp
qed

subsection \<open>\<^const>\<open>default_xla_options\<close>\<close>

lemma multi_slice_keys_fresh:
  "(fst ` set base_options \<union> fst ` set v4_options \<union> fst ` set v6e_options)
     \<inter> fst ` set multi_slice_options = {}"
  by code_simp

lemma keys_dict: "fst ` set (dict kw) = fst ` set kw"
  by (simp add: dict_def keys_dict_update)

lemma map_of_dict_update_multi_slice:
  "map_of (dict_update d multi_slice_options) ''xla_tpu_enable_megascale_barrier''
     = Some (PStr ''true'') \<and>
   map_of (dict_update d multi_slice_options) ''xla_tpu_enable_data_parallel_all_reduce_opt''
     = Some (PStr ''true'') \<and>
   map_of (dict_update d multi_slice_options) ''xla_tpu_data_parallel_opt_different_sized_ops''
     = Some (PStr ''true'')"
  by (simp add: multi_slice_options_def map_of_dict_set)

lemma single_slice_cases:
  assumes "num_slices \<le> 1" "default_xla_options instance_type num_slices backend = Inr opts"
  shows "opts = dict base_options \<or> opts = dict_update (dict base_options) v4_options
      \<or> opts = dict_update (dict base_options) v6e_options"
  using assms
  by (auto simp: default_xla_options_def Let_def split: if_splits sum.splits)

lemma single_slice_keys:
  assumes "opts = dict base_options \<or> opts = dict_update (dict base_options) v4_options
      \<or> opts = dict_update (dict base_options) v6e_options"
  shows "fst ` set opts
      \<subseteq> fst ` set base_options \<union> fst ` set v4_options \<union> fst ` set v6e_options"
  using assms
  by (elim disjE; simp add: keys_dict keys_dict_update; blast)

lemma no_multi_slice_keys:
  assumes "fst ` set (opts :: options)
      \<subseteq> fst ` set base_options \<union> fst ` set v4_options \<union> fst ` set v6e_options"
  shows "fst ` set opts \<inter> fst ` set multi_slice_options = {}"
  using assms multi_slice_keys_fresh by blast

lemma multi_slice_cases:
  assumes "num_slices > 1" "default_xla_options instance_type num_slices backend = Inr opts"
  shows "\<exists>d. opts = dict_update d multi_slice_options"
  using assms
  by (auto simp: default_xla_options_def Let_def split: if_splits sum.splits)

text \<open>
  C1. For \<^verbatim>\<open>v4-8\<close>, one slice and the backend \<^verbatim>\<open>tpu\<close>, the result holds the three base
  flags and the two flags of the v4 overlay, and nothing else: no flag that only the
  v6e overlay sets and no multi-slice flag.
\<close>

theorem default_xla_options_v4_8:
  "default_xla_options ''v4-8'' 1 ''tpu'' =
     Inr [(''xla_tpu_spmd_rng_bit_generator_unsafe'', PBool True),
          (''xla_tpu_enable_latency_hiding_scheduler'', PStr ''true''),
          (''xla_tpu_perform_spmd_cse_prevention'', PStr ''false''),
          (''xla_enable_async_all_gather'', PStr ''true''),
          (''xla_enable_async_collective_permute'', PStr ''true'')] \<and>
   fst ` set [(''xla_tpu_spmd_rng_bit_generator_unsafe'', PBool True),
          (''xla_tpu_enable_latency_hiding_scheduler'', PStr ''true''),
          (''xla_tpu_perform_spmd_cse_prevention'', PStr ''false''),
          (''xla_enable_async_all_gather'', PStr ''true''),
          (''xla_enable_async_collective_permute'', PStr ''true'')]
     \<inter> ((fst ` set v6e_options - fst ` set v4_options) \<union> fst ` set multi_slice_options) = {}"
  by code_simp

text \<open>
  C2. For \<^verbatim>\<open>v6e-256\<close>, two slices and the backend \<^verbatim>\<open>tpu\<close>, the result is the three base
  flags, then the sixteen flags of the v6e overlay, then the three multi-slice flags.
  The keys of the three groups are pairwise distinct, so no value is overwritten.
\<close>

theorem default_xla_options_v6e_256_two_slices:
  "default_xla_options ''v6e-256'' 2 ''tpu'' =
     Inr (base_options @ v6e_options @ multi_slice_options) \<and>
   distinct (map fst (base_options @ v6e_options @ multi_slice_options)) \<and>
   length base_options = 3 \<and> length v6e_options = 16 \<and> length multi_slice_options = 3 \<and>
   multi_slice_options =
     [(''xla_tpu_enable_megascale_barrier'', PStr ''true''),
      (''xla_tpu_enable_data_parallel_all_reduce_opt'', PStr ''true''),
      (''xla_tpu_data_parallel_opt_different_sized_ops'', PStr ''true'')]"
  by code_simp

text \<open>
  C9. A number of slices of at most one, zero and negative numbers included, gives what
  one slice gives, and then none of the three multi-slice flags is in the result. With
  more than one slice all three are in the result, each with the value \<^verbatim>\<open>"true"\<close>.
\<close>

theorem default_xla_options_single_slice:
  "(num_slices \<le> 1 \<longrightarrow>
      default_xla_options instance_type num_slices backend
        = default_xla_options instance_type 1 backend) \<and>
   (num_slices \<le> 1 \<and> default_xla_options instance_type num_slices backend = Inr opts \<longrightarrow>
      fst ` set opts \<inter> fst ` set multi_slice_options = {}) \<and>
   (num_slices > 1 \<and> default_xla_options instance_type num_slices backend = Inr opts \<longrightarrow>
      map_of opts ''xla_tpu_enable_megascale_barrier'' = Some (PStr ''true'') \<and>
      map_of opts ''xla_tpu_enable_data_parallel_all_reduce_opt'' = Some (PStr ''true'') \<and>
      map_of opts ''xla_tpu_data_parallel_opt_different_sized_ops'' = Some (PStr ''true''))"
proof -
  have eq: "num_slices \<le> 1 \<longrightarrow>
      default_xla_options instance_type num_slices backend
        = default_xla_options instance_type 1 backend"
    by (simp add: default_xla_options_def Let_def split: sum.splits)
  have absent: "num_slices \<le> 1 \<and>
      default_xla_options instance_type num_slices backend = Inr opts \<longrightarrow>
      fst ` set opts \<inter> fst ` set multi_slice_options = {}"
  proof
    assume "num_slices \<le> 1 \<and> default_xla_options instance_type num_slices backend = Inr opts"
    then have "opts = dict base_options \<or> opts = dict_update (dict base_options) v4_options
        \<or> opts = dict_update (dict base_options) v6e_options"
      using single_slice_cases[of num_slices instance_type backend opts] by blast
    then show "fst ` set opts \<inter> fst ` set multi_slice_options = {}"
      by (intro no_multi_slice_keys single_slice_keys)
  qed
  have present: "num_slices > 1 \<and>
      default_xla_options instance_type num_slices backend = Inr opts \<longrightarrow>
      map_of opts ''xla_tpu_enable_megascale_barrier'' = Some (PStr ''true'') \<and>
      map_of opts ''xla_tpu_enable_data_parallel_all_reduce_opt'' = Some (PStr ''true'') \<and>
      map_of opts ''xla_tpu_data_parallel_opt_different_sized_ops'' = Some (PStr ''true'')"
  proof
    assume "num_slices > 1 \<and> default_xla_options instance_type num_slices backend = Inr opts"
    then obtain d where d: "opts = dict_update d multi_slice_options"
      using multi_slice_cases[of num_slices instance_type backend opts] by blast
    show "map_of opts ''xla_tpu_enable_megascale_barrier'' = Some (PStr ''true'') \<and>
      map_of opts ''xla_tpu_enable_data_parallel_all_reduce_opt'' = Some (PStr ''true'') \<and>
      map_of opts ''xla_tpu_data_parallel_opt_different_sized_ops'' = Some (PStr ''true'')"
      unfolding d by (rule map_of_dict_update_multi_slice)
  qed
  show ?thesis using eq absent present by (intro conjI)
qed

theorem default_xla_options_single_slice_witness:
  "default_xla_options ''v4-8'' (- 3) ''tpu'' = default_xla_options ''v4-8'' 1 ''tpu'' \<and>
   default_xla_options ''v4-8'' 0 ''tpu'' = Inr (base_options @ v4_options) \<and>
   fst ` set (base_options @ v4_options) \<inter> fst ` set multi_slice_options = {} \<and>
   default_xla_options ''v3-8'' 2 ''tpu'' = Inr (base_options @ multi_slice_options) \<and>
   map_of (base_options @ multi_slice_options) ''xla_tpu_enable_megascale_barrier''
     = Some (PStr ''true'')"
proof -
  have z: "default_xla_options ''v4-8'' 0 ''tpu'' = Inr (base_options @ v4_options)"
    by code_simp
  have t: "default_xla_options ''v3-8'' 2 ''tpu'' = Inr (base_options @ multi_slice_options)"
    by code_simp
  from default_xla_options_single_slice[of "- 3" "''v4-8''" "''tpu''"]
  have 1: "default_xla_options ''v4-8'' (- 3) ''tpu'' = default_xla_options ''v4-8'' 1 ''tpu''"
    by simp
  from default_xla_options_single_slice[of 0 "''v4-8''" "''tpu''" "base_options @ v4_options"] z
  have 2: "fst ` set (base_options @ v4_options) \<inter> fst ` set multi_slice_options = {}"
    by simp
  from default_xla_options_single_slice[of 2 "''v3-8''" "''tpu''" "base_options @ multi_slice_options"] t
  have 3: "map_of (base_options @ multi_slice_options) ''xla_tpu_enable_megascale_barrier''
     = Some (PStr ''true'')"
    by simp
  from 1 z 2 t 3 show ?thesis by blast
qed

end
